theory Spec2Isabelle
  imports Main "HOL-Library.Word"
begin

unbundle bit_operations_syntax

section \<open>Basic data: bytes, errors, outcomes\<close>

text \<open>
  Go's \<^verbatim>\<open>byte\<close> is an 8-bit word and \<^verbatim>\<open>[]byte\<close> a list of them. A Go \<^verbatim>\<open>string\<close>
  is a byte sequence too; it is modelled by \<^typ>\<open>string\<close>, whose characters are bytes.
  Go's \<^verbatim>\<open>int\<close> is modelled by \<^typ>\<open>int\<close>; conversions to \<^verbatim>\<open>int32\<close> and \<^verbatim>\<open>uint32\<close>
  are written out as conversions to 32-bit words.
\<close>

type_synonym byte = "8 word"
type_synonym bytes = "byte list"
type_synonym int32 = "32 word"

text \<open>
  The error values of the package, one constructor for each \<^verbatim>\<open>errors.New\<close> of the source,
  the two errors of \<^verbatim>\<open>io.ReadFull\<close>, and \<open>ErrExternal\<close> for an error handed back by a
  collaborator (the Meeting Place, the protocol-buffer library, a key-derivation function,
  the scrypt subprocess), with its message. The errors of the package itself are made by
  \<^verbatim>\<open>errors.New\<close> inside its functions, so a collaborator cannot return one of them; the
  one exception is the exported \<^verbatim>\<open>ShutdownErr\<close>, which a Meeting Place may return.
\<close>

datatype error =
    ErrTooLarge
  | ErrInvalidSharedSecret
  | ShutdownErr
  | ErrScryptWrongLength nat
  | ErrInitialTooLarge
  | ErrReplyTooSmall
  | ErrCannotAuthenticate
  | ErrPeerInvalid
  | ErrPeerTruncated
  | ErrEOF
  | ErrUnexpectedEOF
  | ErrExternal string

text \<open>What a call does: it returns a value, returns an error, or panics.\<close>

datatype 'a outcome = Ok 'a | Err error | Panic string

text \<open>
  A fixed-size Go array \<^verbatim>\<open>[n]T\<close> is modelled by a list; \<open>array_of n z xs\<close> is the array of
  length \<open>n\<close> that holds \<open>xs\<close> (cut or filled with the zero value \<open>z\<close>), and \<open>copy_into\<close>
  is Go's \<^verbatim>\<open>copy(dst, src)\<close>, returning the new contents of \<open>dst\<close>.
\<close>

definition array_of :: "nat \<Rightarrow> 'a \<Rightarrow> 'a list \<Rightarrow> 'a list" where
  "array_of n z xs = take n xs @ replicate (n - length xs) z"

definition copy_into :: "'a list \<Rightarrow> 'a list \<Rightarrow> 'a list" where
  "copy_into dst src = take (length dst) src @ drop (length src) dst"

abbreviation zeros :: "nat \<Rightarrow> bytes" where
  "zeros n \<equiv> replicate n (0::byte)"

section \<open>Readers\<close>

text \<open>
  An \<^verbatim>\<open>io.Reader\<close> is modelled by the finite stream of bytes it still has to deliver;
  once the stream is exhausted the reader fails. \<open>reader_Read\<close> is one \<^verbatim>\<open>Read\<close> call into
  a buffer of \<open>n\<close> bytes (the bytes delivered, the error, the reader afterwards);
  \<open>io_ReadFull\<close> is \<^verbatim>\<open>io.ReadFull\<close>, which fills the buffer or fails with \<^verbatim>\<open>io.EOF\<close>
  (nothing read) or \<^verbatim>\<open>io.ErrUnexpectedEOF\<close> (some bytes read). Reading into an empty
  buffer always succeeds.
\<close>

type_synonym reader = bytes

definition reader_Read :: "reader \<Rightarrow> nat \<Rightarrow> bytes \<times> error option \<times> reader" where
  "reader_Read r n =
     (if n = 0 then ([], None, r)
      else if r = [] then ([], Some ErrEOF, r)
      else (take n r, None, drop n r))"

definition io_ReadFull :: "reader \<Rightarrow> nat \<Rightarrow> bytes \<times> error option \<times> reader" where
  "io_ReadFull r n =
     (if n \<le> length r then (take n r, None, drop n r)
      else if r = [] then ([], Some ErrEOF, [])
      else (r, Some ErrUnexpectedEOF, []))"

section \<open>The cryptographic and encoding primitives\<close>

text \<open>
  The card-deck secret. \<open>counts\<close> is the array \<^verbatim>\<open>[numCards]int32\<close> of the source.
\<close>

record CardStack =
  NumDecks :: int
  counts :: "int32 list"

record SharedSecret =
  Secret :: string
  Cards :: CardStack
  Day :: int
  Month :: int
  Year :: int
  Hours :: int
  Minutes :: int

text \<open>
  The protocol-buffer messages. An optional field is an \<open>option\<close>, an absent bytes field
  is the empty list, as the copies of the source read it.
\<close>

record proto_Time =
  pt_Day :: "int32 option"
  pt_Month :: "int32 option"
  pt_Year :: "int32 option"
  pt_Hours :: "int32 option"
  pt_Minutes :: "int32 option"

record proto_SharedSecret =
  ps_Secret :: "string option"
  ps_NumDecks :: "int32 option"
  ps_CardCount :: "int32 list"
  ps_Time :: "proto_Time option"

datatype KeyExchange_Status = INIT | EXCHANGE1 | EXCHANGE2 | UnknownStatus int32

record proto_KeyExchange =
  pk_Status :: "KeyExchange_Status option"
  pk_SharedSecret :: "proto_SharedSecret option"
  pk_KeyExchangeBytes :: bytes
  pk_DhPrivate :: bytes
  pk_Key :: bytes
  pk_Meeting1 :: bytes
  pk_Meeting2 :: bytes
  pk_Message1 :: bytes
  pk_Message2 :: bytes
  pk_SharedKey :: bytes

text \<open>
  The libraries the package calls are not part of the repository: SHA-256, HKDF, scrypt
  (in process, and through the subprocess used on 32-bit Linux), the Rijndael block
  cipher with 256-bit blocks, Curve25519, NaCl's secretbox and the protocol-buffer codec.
  So are the card stack's \<^verbatim>\<open>numCards\<close> and \<^verbatim>\<open>Canonicalise\<close>. They are parameters of
  the model, collected in one record; every theorem holds for all of them unless it
  states what it needs.
\<close>

record prims =
  sha256 :: "bytes \<Rightarrow> bytes"
  hkdf :: "bytes \<Rightarrow> bytes \<Rightarrow> bytes \<Rightarrow> bytes"
  scrypt_Key :: "bytes \<Rightarrow> bytes \<Rightarrow> int \<Rightarrow> int \<Rightarrow> int \<Rightarrow> int \<Rightarrow> string + bytes"
  linux386 :: bool
  scrypt_subprocess :: "bytes \<Rightarrow> string + bytes"
  rijndael_Encrypt :: "bytes \<Rightarrow> bytes \<Rightarrow> bytes"
  rijndael_Decrypt :: "bytes \<Rightarrow> bytes \<Rightarrow> bytes"
  curve25519_ScalarBaseMult :: "bytes \<Rightarrow> bytes"
  curve25519_ScalarMult :: "bytes \<Rightarrow> bytes \<Rightarrow> bytes"
  secretbox_Seal :: "bytes \<Rightarrow> bytes \<Rightarrow> bytes \<Rightarrow> bytes"
  secretbox_Open :: "bytes \<Rightarrow> bytes \<Rightarrow> bytes \<Rightarrow> bytes option"
  marshal_SharedSecret :: "proto_SharedSecret \<Rightarrow> string + bytes"
  proto_Marshal :: "proto_KeyExchange \<Rightarrow> string + bytes"
  proto_Unmarshal :: "bytes \<Rightarrow> string + proto_KeyExchange"
  numCards :: nat
  Canonicalise :: "CardStack \<Rightarrow> CardStack"

text \<open>\<^verbatim>\<open>secretbox.Overhead\<close>, the length of the Poly1305 tag.\<close>

definition secretbox_Overhead :: int where
  "secretbox_Overhead = 16"

section \<open>Hexadecimal encoding (encoding/hex)\<close>

definition hextable :: string where
  "hextable = ''0123456789abcdef''"

definition hex_EncodeToString :: "bytes \<Rightarrow> string" where
  "hex_EncodeToString src =
     concat (map (\<lambda>v. [hextable ! unat (drop_bit 4 v), hextable ! unat (v AND 0x0f)]) src)"

definition fromHexChar :: "char \<Rightarrow> byte option" where
  "fromHexChar c =
     (let n = (of_char c :: nat) in
      if 48 \<le> n \<and> n \<le> 57 then Some (of_nat (n - 48))
      else if 97 \<le> n \<and> n \<le> 102 then Some (of_nat (n - 97 + 10))
      else if 65 \<le> n \<and> n \<le> 70 then Some (of_nat (n - 65 + 10))
      else None)"

text \<open>\<^verbatim>\<open>hex.Decode\<close>: \<open>None\<close> is its error (an invalid byte, or an odd length).\<close>

fun hex_Decode :: "string \<Rightarrow> bytes option" where
  "hex_Decode [] = Some []"
| "hex_Decode [p] = None"
| "hex_Decode (p # q # rest) =
     (case fromHexChar p of
        None \<Rightarrow> None
      | Some a \<Rightarrow>
          (case fromHexChar q of
             None \<Rightarrow> None
           | Some b \<Rightarrow>
               (case hex_Decode rest of
                  None \<Rightarrow> None
                | Some bs \<Rightarrow> Some ((push_bit 4 a OR b) # bs))))"

section \<open>Secret strings\<close>

definition generatedSecretStringPrefix :: string where
  "generatedSecretStringPrefix = ''r!''"

definition generatedSecretStringPrefix2 :: string where
  "generatedSecretStringPrefix2 = ''r[''"

definition HasPrefix :: "string \<Rightarrow> string \<Rightarrow> bool" where
  "HasPrefix s p = (length p \<le> length s \<and> take (length p) s = p)"

text \<open>
  \<^verbatim>\<open>NewSecretString\<close>: 16 bytes from the reader (a failed read panics; a short read leaves
  the rest of the zeroed buffer), the first two bytes of their SHA-256 digest appended,
  in hexadecimal behind the prefix.
\<close>

definition NewSecretString :: "prims \<Rightarrow> reader \<Rightarrow> string outcome" where
  "NewSecretString P rnd =
     (case reader_Read rnd 16 of
        (got, Some e, _) \<Rightarrow> Panic ''error reading from rand''
      | (got, None, _) \<Rightarrow>
          (let b = copy_into (zeros 16) got;
               digest = sha256 P b;
               b' = b @ [digest ! 0, digest ! 1]
           in Ok (generatedSecretStringPrefix @ hex_EncodeToString b')))"

definition isValidSecretString :: "prims \<Rightarrow> string \<Rightarrow> bool" where
  "isValidSecretString P s0 =
     (if \<not> HasPrefix s0 generatedSecretStringPrefix \<and>
         \<not> HasPrefix s0 generatedSecretStringPrefix2
      then False
      else
        (let s = drop (length generatedSecretStringPrefix) s0 in
         if length s mod 2 = 1 \<or> length s div 2 \<noteq> 18 then False
         else
           (case hex_Decode s of
              None \<Rightarrow> False
            | Some b \<Rightarrow>
                (let digest = sha256 P (take 16 b)
                 in b ! 16 = digest ! 0 \<and> b ! 17 = digest ! 1))))"

definition IsAcceptableSecretString :: "prims \<Rightarrow> string \<Rightarrow> bool" where
  "IsAcceptableSecretString P s =
     (if \<not> HasPrefix s generatedSecretStringPrefix \<and>
         \<not> HasPrefix s generatedSecretStringPrefix2
      then True
      else isValidSecretString P s)"

text \<open>
  The checksum of a token's 16 data bytes (the first two bytes of their digest), and the
  data bytes a token string decodes to; both are used to state what a changed token
  does.
\<close>

definition checksum :: "prims \<Rightarrow> bytes \<Rightarrow> byte \<times> byte" where
  "checksum P d = (sha256 P d ! 0, sha256 P d ! 1)"

definition token_data :: "string \<Rightarrow> bytes" where
  "token_data s = (case hex_Decode (drop 2 s) of None \<Rightarrow> [] | Some b \<Rightarrow> take 16 b)"

section \<open>Shared secrets\<close>

definition isStrongRandom :: "prims \<Rightarrow> SharedSecret \<Rightarrow> bool" where
  "isStrongRandom P s =
     (HasPrefix (Secret s) generatedSecretStringPrefix2 \<and> isValidSecretString P (Secret s))"

text \<open>\<^verbatim>\<open>int32(x)\<close> of a Go \<^verbatim>\<open>int\<close>, and \<^verbatim>\<open>int(x)\<close> of an \<^verbatim>\<open>int32\<close>.\<close>

definition to_int32 :: "int \<Rightarrow> int32" where
  "to_int32 x = word_of_int x"

definition of_int32 :: "int32 \<Rightarrow> int" where
  "of_int32 w = sint w"

definition toProto :: "prims \<Rightarrow> SharedSecret \<Rightarrow> proto_SharedSecret" where
  "toProto P s =
     \<lparr> ps_Secret = (if length (Secret s) > 0 then Some (Secret s) else None),
       ps_NumDecks = (if NumDecks (Cards s) > 0 then Some (to_int32 (NumDecks (Cards s))) else None),
       ps_CardCount =
         (if NumDecks (Cards s) > 0
          then array_of (numCards P) 0 (counts (Canonicalise P (Cards s)))
          else []),
       ps_Time =
         (if Year s \<noteq> 0
          then Some \<lparr> pt_Day = Some (to_int32 (Day s)),
                      pt_Month = Some (to_int32 (Month s)),
                      pt_Year = Some (to_int32 (Year s)),
                      pt_Hours = Some (to_int32 (Hours s)),
                      pt_Minutes = Some (to_int32 (Minutes s)) \<rparr>
          else None) \<rparr>"

text \<open>The getters of the generated protocol-buffer code: the zero value when unset.\<close>

definition GetSecret :: "proto_SharedSecret \<Rightarrow> string" where
  "GetSecret p = (case ps_Secret p of None \<Rightarrow> [] | Some s \<Rightarrow> s)"

definition GetNumDecks :: "proto_SharedSecret \<Rightarrow> int32" where
  "GetNumDecks p = (case ps_NumDecks p of None \<Rightarrow> 0 | Some n \<Rightarrow> n)"

definition GetTimeField :: "(proto_Time \<Rightarrow> int32 option) \<Rightarrow> proto_Time option \<Rightarrow> int32" where
  "GetTimeField f t =
     (case t of None \<Rightarrow> 0 | Some tm \<Rightarrow> (case f tm of None \<Rightarrow> 0 | Some v \<Rightarrow> v))"

text \<open>
  \<^verbatim>\<open>newSharedSecret\<close> on a record that is present: \<open>None\<close> is its \<^verbatim>\<open>(nil, false)\<close>.
\<close>

definition newSharedSecret :: "prims \<Rightarrow> proto_SharedSecret \<Rightarrow> SharedSecret option" where
  "newSharedSecret P p =
     (let ret = \<lparr> Secret = GetSecret p,
                  Cards = \<lparr> NumDecks = of_int32 (GetNumDecks p),
                            counts = replicate (numCards P) 0 \<rparr>,
                  Day = of_int32 (GetTimeField pt_Day (ps_Time p)),
                  Month = of_int32 (GetTimeField pt_Month (ps_Time p)),
                  Year = of_int32 (GetTimeField pt_Year (ps_Time p)),
                  Hours = of_int32 (GetTimeField pt_Hours (ps_Time p)),
                  Minutes = of_int32 (GetTimeField pt_Minutes (ps_Time p)) \<rparr>
      in
      if NumDecks (Cards ret) > 0 then
        (if length (ps_CardCount p) \<noteq> numCards P then None
         else Some (ret\<lparr> Cards := (Cards ret)\<lparr> counts := copy_into (counts (Cards ret)) (ps_CardCount p) \<rparr> \<rparr>))
      else
        (if length (Secret ret) = 0 then None else Some ret))"

text \<open>
  The validity invariant the specification gives for a Shared Secret: exactly one of
  "text secret non-empty" and "deck count positive".
\<close>

definition exactly_one_form :: "SharedSecret \<Rightarrow> bool" where
  "exactly_one_form s = ((Secret s \<noteq> []) \<noteq> (NumDecks (Cards s) > 0))"

section \<open>The Meeting Place and the shutdown channel\<close>

text \<open>
  \<^verbatim>\<open>ShutdownChan\<close> is a \<^verbatim>\<open>chan struct{}\<close>: nil, open with a number of values waiting, or
  closed. A receive in a \<^verbatim>\<open>select\<close> with a \<^verbatim>\<open>default\<close> branch succeeds on a closed
  channel and on a waiting value (which it takes), never on a nil channel.
\<close>

datatype chan = NilChan | OpenChan nat | ClosedChan

text \<open>
  The \<^verbatim>\<open>MeetingPlace\<close> interface: \<open>Padding\<close>, and \<open>Exchange\<close>, whose reply may depend on
  the earlier calls, the tag, the message and the shutdown channel it is handed.
  \<open>calls\<close> records the (tag, message) pairs of the calls made so far.
\<close>

datatype exchange_error = ExchangeShutdown | ExchangeError string

definition error_of :: "exchange_error \<Rightarrow> error" where
  "error_of e = (case e of ExchangeShutdown \<Rightarrow> ShutdownErr | ExchangeError m \<Rightarrow> ErrExternal m)"

record MeetingPlace =
  Padding :: int
  Exchange :: "(bytes \<times> bytes) list \<Rightarrow> bytes \<Rightarrow> bytes \<Rightarrow> chan \<Rightarrow> exchange_error + bytes"
  calls :: "(bytes \<times> bytes) list"

definition call_Exchange ::
  "MeetingPlace \<Rightarrow> bytes \<Rightarrow> bytes \<Rightarrow> chan \<Rightarrow> (exchange_error + bytes) \<times> MeetingPlace" where
  "call_Exchange mp tag msg sd =
     (Exchange mp (calls mp) tag msg sd, mp\<lparr> calls := calls mp @ [(tag, msg)] \<rparr>)"

section \<open>The Key Exchange\<close>

text \<open>
  The \<^verbatim>\<open>KeyExchange\<close> struct. \<open>Log\<close> tells whether the \<^verbatim>\<open>Log\<close> callback is set (calling a
  nil function panics; what a set callback prints is not part of the protocol). The
  mutex only guards \<open>serialised\<close> against a concurrent reader and is left out. The
  \<^verbatim>\<open>[32]byte\<close> arrays are lists of length 32.
\<close>

record KeyExchange =
  Log :: bool
  Testing :: bool
  ShutdownChan :: chan
  rand :: reader
  status :: KeyExchange_Status
  meetingPlace :: MeetingPlace
  sharedSecret :: SharedSecret
  serialised :: bytes
  kxBytes :: bytes
  key :: bytes
  meeting1 :: bytes
  meeting2 :: bytes
  dhPublic :: bytes
  dhPrivate :: bytes
  sharedKey :: bytes
  message1 :: bytes
  message2 :: bytes

text \<open>The message \<^verbatim>\<open>updateSerialised\<close> builds, and \<^verbatim>\<open>updateSerialised\<close> itself.\<close>

definition snapshot :: "prims \<Rightarrow> KeyExchange \<Rightarrow> proto_KeyExchange" where
  "snapshot P kx =
     (let past = (status kx \<noteq> INIT) in
      \<lparr> pk_Status = Some (status kx),
        pk_SharedSecret = Some (toProto P (sharedSecret kx)),
        pk_KeyExchangeBytes = kxBytes kx,
        pk_DhPrivate = (if past then dhPrivate kx else []),
        pk_Key = (if past then key kx else []),
        pk_Meeting1 = (if past then meeting1 kx else []),
        pk_Meeting2 = (if past then meeting2 kx else []),
        pk_Message1 = (if past then message1 kx else []),
        pk_Message2 = (if past then message2 kx else []),
        pk_SharedKey = (if past then sharedKey kx else []) \<rparr>)"

definition updateSerialised :: "prims \<Rightarrow> KeyExchange \<Rightarrow> KeyExchange outcome" where
  "updateSerialised P kx =
     (case proto_Marshal P (snapshot P kx) of
        Inl e \<Rightarrow> Panic ''proto.Marshal failed''
      | Inr bs \<Rightarrow> Ok (kx\<lparr> serialised := bs \<rparr>))"

definition Marshal :: "KeyExchange \<Rightarrow> bytes" where
  "Marshal kx = serialised kx"

definition NewKeyExchange ::
  "prims \<Rightarrow> reader \<Rightarrow> MeetingPlace \<Rightarrow> SharedSecret \<Rightarrow> bytes \<Rightarrow> KeyExchange outcome" where
  "NewKeyExchange P rnd mp ss kxb =
     (if 24 + 4 + int (length kxb) + secretbox_Overhead > Padding mp then Err ErrTooLarge
      else
        (case io_ReadFull rnd 32 of
           (got, Some e, rnd') \<Rightarrow> Err e
         | (got, None, rnd') \<Rightarrow>
             updateSerialised P
               \<lparr> Log = True, Testing = False, ShutdownChan = NilChan,
                 rand = rnd', status = INIT, meetingPlace = mp, sharedSecret = ss,
                 serialised = [], kxBytes = kxb,
                 key = zeros 32, meeting1 = zeros 32, meeting2 = zeros 32,
                 dhPublic = array_of 32 0 (curve25519_ScalarBaseMult P got),
                 dhPrivate = got, sharedKey = zeros 32,
                 message1 = [], message2 = [] \<rparr>))"

text \<open>
  \<^verbatim>\<open>UnmarshalKeyExchange\<close>. A message without a shared-secret record hands a nil pointer
  to \<^verbatim>\<open>newSharedSecret\<close>, which dereferences it. \<^verbatim>\<open>Log\<close>, \<^verbatim>\<open>Testing\<close> and \<^verbatim>\<open>ShutdownChan\<close>
  are not set.
\<close>

definition GetStatus :: "proto_KeyExchange \<Rightarrow> KeyExchange_Status" where
  "GetStatus p = (case pk_Status p of None \<Rightarrow> INIT | Some st \<Rightarrow> st)"

definition UnmarshalKeyExchange ::
  "prims \<Rightarrow> reader \<Rightarrow> MeetingPlace \<Rightarrow> bytes \<Rightarrow> KeyExchange outcome" where
  "UnmarshalKeyExchange P rnd mp ser =
     (case proto_Unmarshal P ser of
        Inl e \<Rightarrow> Err (ErrExternal e)
      | Inr p \<Rightarrow>
          (case pk_SharedSecret p of
             None \<Rightarrow> Panic ''nil pointer dereference''
           | Some q \<Rightarrow>
               (case newSharedSecret P q of
                  None \<Rightarrow> Err ErrInvalidSharedSecret
                | Some ss \<Rightarrow>
                    (let priv = copy_into (zeros 32) (pk_DhPrivate p) in
                     Ok \<lparr> Log = False, Testing = False, ShutdownChan = NilChan,
                          rand = rnd, status = GetStatus p, meetingPlace = mp,
                          sharedSecret = ss, serialised = ser,
                          kxBytes = pk_KeyExchangeBytes p,
                          key = copy_into (zeros 32) (pk_Key p),
                          meeting1 = copy_into (zeros 32) (pk_Meeting1 p),
                          meeting2 = copy_into (zeros 32) (pk_Meeting2 p),
                          dhPublic = array_of 32 0 (curve25519_ScalarBaseMult P priv),
                          dhPrivate = priv,
                          sharedKey = copy_into (zeros 32) (pk_SharedKey p),
                          message1 = pk_Message1 p, message2 = pk_Message2 p \<rparr>))))"

definition shouldStop :: "KeyExchange \<Rightarrow> bool \<times> KeyExchange" where
  "shouldStop kx =
     (case ShutdownChan kx of
        NilChan \<Rightarrow> (False, kx)
      | ClosedChan \<Rightarrow> (True, kx)
      | OpenChan 0 \<Rightarrow> (False, kx)
      | OpenChan (Suc n) \<Rightarrow> (True, kx\<lparr> ShutdownChan := OpenChan n \<rparr>))"

subsection \<open>Password derivation\<close>

definition hkdf_info :: bytes where
  "hkdf_info = map of_char ''PANDA strong secret expansion''"

text \<open>
  One \<^verbatim>\<open>Read\<close> of 32 bytes from the HKDF stream: the bytes and the rest of the stream, or
  the stream's error when fewer are left.
\<close>

definition hkdf_Read :: "bytes \<Rightarrow> (bytes \<times> bytes) option" where
  "hkdf_Read h = (if length h < 32 then None else Some (take 32 h, drop 32 h))"

text \<open>\<^verbatim>\<open>binary.LittleEndian\<close>, for \<^verbatim>\<open>uint32\<close>.\<close>

definition le_bytes32 :: "32 word \<Rightarrow> bytes" where
  "le_bytes32 v = [ucast v, ucast (drop_bit 8 v), ucast (drop_bit 16 v), ucast (drop_bit 24 v)]"

definition le_Uint32 :: "bytes \<Rightarrow> 32 word" where
  "le_Uint32 b =
     (ucast (b ! 0) OR push_bit 8 (ucast (b ! 1)) OR push_bit 16 (ucast (b ! 2))
      OR push_bit 24 (ucast (b ! 3)))"

text \<open>
  The first half of \<^verbatim>\<open>derivePassword\<close>: the three 32-byte values, from HKDF (testing, or a
  strong random secret) or from scrypt (in process, or through the subprocess on 32-bit
  Linux). Every assignment to a field made before a failure stays in the state.
\<close>

definition derive_keys :: "prims \<Rightarrow> bytes \<Rightarrow> KeyExchange \<Rightarrow> unit outcome \<times> KeyExchange" where
  "derive_keys P ser kx =
     (if Testing kx \<or> isStrongRandom P (sharedSecret kx) then
        (case hkdf_Read (hkdf P ser [] hkdf_info) of
           None \<Rightarrow> (Err (ErrExternal ''hkdf''), kx)
         | Some (k, h1) \<Rightarrow>
             (let kx1 = kx\<lparr> key := k \<rparr> in
              case hkdf_Read h1 of
                None \<Rightarrow> (Err (ErrExternal ''hkdf''), kx1)
              | Some (m1, h2) \<Rightarrow>
                  (let kx2 = kx1\<lparr> meeting1 := m1 \<rparr> in
                   case hkdf_Read h2 of
                     None \<Rightarrow> (Err (ErrExternal ''hkdf''), kx2)
                   | Some (m2, h3) \<Rightarrow> (Ok (), kx2\<lparr> meeting2 := m2 \<rparr>))))
      else
        (case (if linux386 P
               then (case scrypt_subprocess P (le_bytes32 (of_nat (length ser)) @ ser) of
                       Inl e \<Rightarrow> Inl (ErrExternal e)
                     | Inr d \<Rightarrow> if length d \<noteq> 32 * 3 then Inl (ErrScryptWrongLength (length d))
                               else Inr d)
               else (case scrypt_Key P ser [] (2 ^ 17) 16 4 (32 * 3) of
                       Inl e \<Rightarrow> Inl (ErrExternal e)
                     | Inr d \<Rightarrow> Inr d)) of
           Inl e \<Rightarrow> (Err e, kx)
         | Inr d \<Rightarrow>
             (let kx1 = kx\<lparr> key := copy_into (key kx) d \<rparr> in
              if length d < 32 then (Panic ''data[32:]: slice bounds out of range'', kx1)
              else
                (let kx2 = kx1\<lparr> meeting1 := copy_into (meeting1 kx) (drop 32 d) \<rparr> in
                 if length d < 64 then (Panic ''data[64:]: slice bounds out of range'', kx2)
                 else (Ok (), kx2\<lparr> meeting2 := copy_into (meeting2 kx) (drop 64 d) \<rparr>)))))"

definition derivePassword :: "prims \<Rightarrow> KeyExchange \<Rightarrow> unit outcome \<times> KeyExchange" where
  "derivePassword P kx =
     (case marshal_SharedSecret P (toProto P (sharedSecret kx)) of
        Inl e \<Rightarrow> (Err (ErrExternal e), kx)
      | Inr ser \<Rightarrow>
          (case derive_keys P ser kx of
             (Err e, kx1) \<Rightarrow> (Err e, kx1)
           | (Panic s, kx1) \<Rightarrow> (Panic s, kx1)
           | (Ok u, kx1) \<Rightarrow>
               (let encryptedDHPublic =
                      array_of 32 0 (rijndael_Encrypt P (key kx1) (dhPublic kx1));
                    padding = Padding (meetingPlace kx1)
                in
                if 32 > padding then (Err ErrInitialTooLarge, kx1)
                else
                  (let l = nat padding;
                       m1 = copy_into (zeros l) encryptedDHPublic
                   in
                   case io_ReadFull (rand kx1) (l - 32) of
                     (got, Some e, rnd') \<Rightarrow>
                       (Err e, kx1\<lparr> message1 := take 32 m1 @ copy_into (drop 32 m1) got,
                                     rand := rnd' \<rparr>)
                   | (got, None, rnd') \<Rightarrow>
                       (Ok (), kx1\<lparr> message1 := take 32 m1 @ copy_into (drop 32 m1) got,
                                    rand := rnd' \<rparr>)))))"

subsection \<open>The two exchanges\<close>

text \<open>
  The second half of \<^verbatim>\<open>exchange1\<close>: the padded block (length prefix, payload, random
  filler), the nonce, and the sealed second message. \<^verbatim>\<open>secretbox.Seal\<close> appends to the
  empty slice \<^verbatim>\<open>message2[24:24]\<close>, so its output lands in \<^verbatim>\<open>message2\<close> when it fits the
  capacity left and in a fresh array otherwise.
\<close>

definition seal_message2 :: "prims \<Rightarrow> KeyExchange \<Rightarrow> unit outcome \<times> KeyExchange" where
  "seal_message2 P kx1 =
     (let paddedLen = Padding (meetingPlace kx1);
          n = paddedLen - 24 - secretbox_Overhead
      in
      if n < 0 then (Panic ''make: len out of range'', kx1)
      else if n < 4 then (Panic ''PutUint32: index out of range'', kx1)
      else
        (let padded0 = le_bytes32 (of_nat (length (kxBytes kx1))) @ zeros (nat n - 4);
             padded1 = take 4 padded0 @ copy_into (drop 4 padded0) (kxBytes kx1)
         in
         if 4 + int (length (kxBytes kx1)) > n
         then (Panic ''padded[4+len(kxBytes):]: slice bounds out of range'', kx1)
         else
           (let used = 4 + length (kxBytes kx1) in
            case io_ReadFull (rand kx1) (nat n - used) of
              (got, Some e, rnd') \<Rightarrow> (Err e, kx1\<lparr> rand := rnd' \<rparr>)
            | (got, None, rnd') \<Rightarrow>
                (let padded = take used padded1 @ got in
                 case io_ReadFull rnd' 24 of
                   (nonce, Some e, rnd'') \<Rightarrow> (Err e, kx1\<lparr> rand := rnd'' \<rparr>)
                 | (nonce, None, rnd'') \<Rightarrow>
                     (let box = secretbox_Seal P padded nonce (sharedKey kx1);
                          m2 = copy_into (zeros (nat paddedLen)) nonce
                      in
                      (Ok (),
                       kx1\<lparr> rand := rnd'',
                            message2 :=
                              (if length box \<le> nat paddedLen - 24
                               then take 24 m2 @ copy_into (drop 24 m2) box
                               else m2) \<rparr>))))))"

definition exchange1 :: "prims \<Rightarrow> KeyExchange \<Rightarrow> unit outcome \<times> KeyExchange" where
  "exchange1 P kx =
     (case call_Exchange (meetingPlace kx) (meeting1 kx) (message1 kx) (ShutdownChan kx) of
        (Inl e, mp') \<Rightarrow> (Err (error_of e), kx\<lparr> meetingPlace := mp' \<rparr>)
      | (Inr reply, mp') \<Rightarrow>
          (let kx0 = kx\<lparr> meetingPlace := mp' \<rparr> in
           if length reply < 32 then (Err ErrReplyTooSmall, kx0)
           else
             (let encryptedPeerDHPublic = copy_into (zeros 32) reply;
                  peerDHPublic =
                    array_of 32 0 (rijndael_Decrypt P (key kx0) encryptedPeerDHPublic)
              in
              seal_message2 P
                (kx0\<lparr> sharedKey :=
                        array_of 32 0 (curve25519_ScalarMult P (dhPrivate kx0) peerDHPublic) \<rparr>))))"

definition exchange2 :: "prims \<Rightarrow> KeyExchange \<Rightarrow> bytes outcome \<times> KeyExchange" where
  "exchange2 P kx =
     (case call_Exchange (meetingPlace kx) (meeting2 kx) (message2 kx) (ShutdownChan kx) of
        (Inl e, mp') \<Rightarrow> (Err (error_of e), kx\<lparr> meetingPlace := mp' \<rparr>)
      | (Inr reply, mp') \<Rightarrow>
          (let kx0 = kx\<lparr> meetingPlace := mp' \<rparr> in
           if length reply < 24 then (Err ErrReplyTooSmall, kx0)
           else if sharedKey kx0 ! 0 = 0 \<and> sharedKey kx0 ! 1 = 0 then (Panic ''here'', kx0)
           else
             (let nonce = copy_into (zeros 24) reply in
              case secretbox_Open P (drop 24 reply) nonce (sharedKey kx0) of
                None \<Rightarrow> (Err ErrCannotAuthenticate, kx0)
              | Some message \<Rightarrow>
                  if length message < 4 then (Err ErrPeerInvalid, kx0)
                  else
                    (let l = le_Uint32 message;
                         message' = drop 4 message
                     in
                     if l > (of_nat (length message') :: 32 word)
                     then (Err ErrPeerTruncated, kx0)
                     else (Ok (take (unat l) message'), kx0)))))"

subsection \<open>Run\<close>

text \<open>
  \<^verbatim>\<open>Run\<close> switches on the stored status and falls through: each case is a function that
  ends in the next one. The result is what \<^verbatim>\<open>Run\<close> returns together with the state of
  the Key Exchange when it returns.
\<close>

definition run_EXCHANGE2 :: "prims \<Rightarrow> KeyExchange \<Rightarrow> bytes outcome \<times> KeyExchange" where
  "run_EXCHANGE2 P kx = exchange2 P kx"

definition run_EXCHANGE1 :: "prims \<Rightarrow> KeyExchange \<Rightarrow> bytes outcome \<times> KeyExchange" where
  "run_EXCHANGE1 P kx =
     (case exchange1 P kx of
        (Err e, kx1) \<Rightarrow> (Err e, kx1)
      | (Panic s, kx1) \<Rightarrow> (Panic s, kx1)
      | (Ok u, kx1) \<Rightarrow>
          (case updateSerialised P (kx1\<lparr> status := EXCHANGE2 \<rparr>) of
             Err e \<Rightarrow> (Err e, kx1\<lparr> status := EXCHANGE2 \<rparr>)
           | Panic s \<Rightarrow> (Panic s, kx1\<lparr> status := EXCHANGE2 \<rparr>)
           | Ok kx2 \<Rightarrow>
               if \<not> Log kx2 then (Panic ''call of nil func Log'', kx2)
               else
                 (case shouldStop kx2 of
                    (True, kx3) \<Rightarrow> (Err ShutdownErr, kx3)
                  | (False, kx3) \<Rightarrow> run_EXCHANGE2 P kx3)))"

definition run_INIT :: "prims \<Rightarrow> KeyExchange \<Rightarrow> bytes outcome \<times> KeyExchange" where
  "run_INIT P kx =
     (case derivePassword P kx of
        (Err e, kx1) \<Rightarrow> (Err e, kx1)
      | (Panic s, kx1) \<Rightarrow> (Panic s, kx1)
      | (Ok u, kx1) \<Rightarrow>
          (case updateSerialised P (kx1\<lparr> status := EXCHANGE1 \<rparr>) of
             Err e \<Rightarrow> (Err e, kx1\<lparr> status := EXCHANGE1 \<rparr>)
           | Panic s \<Rightarrow> (Panic s, kx1\<lparr> status := EXCHANGE1 \<rparr>)
           | Ok kx2 \<Rightarrow>
               if \<not> Log kx2 then (Panic ''call of nil func Log'', kx2)
               else
                 (case shouldStop kx2 of
                    (True, kx3) \<Rightarrow> (Err ShutdownErr, kx3)
                  | (False, kx3) \<Rightarrow> run_EXCHANGE1 P kx3)))"

definition Run :: "prims \<Rightarrow> KeyExchange \<Rightarrow> bytes outcome \<times> KeyExchange" where
  "Run P kx =
     (case status kx of
        INIT \<Rightarrow> run_INIT P kx
      | EXCHANGE1 \<Rightarrow> run_EXCHANGE1 P kx
      | EXCHANGE2 \<Rightarrow> run_EXCHANGE2 P kx
      | UnknownStatus v \<Rightarrow> (Panic ''unknown state'', kx))"

section \<open>The key-registration handlers (keys.go)\<close>










section \<open>A small instance of the primitives, to run the model\<close>

text \<open>
  Stand-ins for the libraries, simple enough to evaluate: a digest that repeats the sum
  of its input, an additive Diffie-Hellman on byte vectors, a block cipher that adds the
  key, a secretbox whose tag is the first 16 bytes of the key, and a codec that writes
  every field behind a length byte.
\<close>

definition toy_digest :: "nat \<Rightarrow> bytes \<Rightarrow> bytes" where
  "toy_digest n bs = replicate n (sum_list bs + 1)"

definition toy_Seal :: "bytes \<Rightarrow> bytes \<Rightarrow> bytes \<Rightarrow> bytes" where
  "toy_Seal m nonce k = array_of 16 0 k @ m"

definition toy_Open :: "bytes \<Rightarrow> bytes \<Rightarrow> bytes \<Rightarrow> bytes option" where
  "toy_Open box nonce k =
     (if 16 \<le> length box \<and> take 16 box = array_of 16 0 k then Some (drop 16 box) else None)"

definition toy_put :: "bytes \<Rightarrow> bytes" where
  "toy_put bs = of_nat (length bs) # bs"

definition toy_get :: "bytes \<Rightarrow> bytes \<times> bytes" where
  "toy_get s = (case s of [] \<Rightarrow> ([], []) | n # r \<Rightarrow> (take (unat n) r, drop (unat n) r))"

definition toy_put_opt32 :: "int32 option \<Rightarrow> bytes" where
  "toy_put_opt32 v = (case v of None \<Rightarrow> [0, 0, 0, 0, 0] | Some w \<Rightarrow> 1 # le_bytes32 w)"

definition toy_get_opt32 :: "bytes \<Rightarrow> int32 option \<times> bytes" where
  "toy_get_opt32 s =
     ((if hd s = 0 then None else Some (le_Uint32 (take 4 (tl s)))), drop 5 s)"

definition toy_put_Status :: "KeyExchange_Status option \<Rightarrow> bytes" where
  "toy_put_Status v =
     toy_put_opt32 (case v of None \<Rightarrow> None
                    | Some INIT \<Rightarrow> Some 0 | Some EXCHANGE1 \<Rightarrow> Some 1
                    | Some EXCHANGE2 \<Rightarrow> Some 2 | Some (UnknownStatus w) \<Rightarrow> Some w)"

definition toy_get_Status :: "bytes \<Rightarrow> KeyExchange_Status option \<times> bytes" where
  "toy_get_Status s =
     (case toy_get_opt32 s of
        (None, r) \<Rightarrow> (None, r)
      | (Some w, r) \<Rightarrow>
          (Some (if w = 0 then INIT else if w = 1 then EXCHANGE1
                 else if w = 2 then EXCHANGE2 else UnknownStatus w), r))"

definition toy_put_Time :: "proto_Time option \<Rightarrow> bytes" where
  "toy_put_Time v =
     (case v of
        None \<Rightarrow> [0]
      | Some t \<Rightarrow>
          1 # toy_put_opt32 (pt_Day t) @ toy_put_opt32 (pt_Month t) @ toy_put_opt32 (pt_Year t)
            @ toy_put_opt32 (pt_Hours t) @ toy_put_opt32 (pt_Minutes t))"

definition toy_get_Time :: "bytes \<Rightarrow> proto_Time option \<times> bytes" where
  "toy_get_Time s =
     (if hd s = 0 then (None, tl s)
      else
        (let (d, r1) = toy_get_opt32 (tl s);
             (mo, r2) = toy_get_opt32 r1;
             (y, r3) = toy_get_opt32 r2;
             (h, r4) = toy_get_opt32 r3;
             (mi, r5) = toy_get_opt32 r4
         in (Some \<lparr> pt_Day = d, pt_Month = mo, pt_Year = y, pt_Hours = h, pt_Minutes = mi \<rparr>,
             r5)))"

fun toy_get_counts :: "nat \<Rightarrow> bytes \<Rightarrow> int32 list" where
  "toy_get_counts 0 s = []"
| "toy_get_counts (Suc n) s = le_Uint32 (take 4 s) # toy_get_counts n (drop 4 s)"

definition toy_put_SharedSecret :: "proto_SharedSecret \<Rightarrow> bytes" where
  "toy_put_SharedSecret p =
     (case ps_Secret p of None \<Rightarrow> [0] | Some t \<Rightarrow> 1 # toy_put (map of_char t))
     @ toy_put_opt32 (ps_NumDecks p)
     @ of_nat (length (ps_CardCount p)) # concat (map le_bytes32 (ps_CardCount p))
     @ toy_put_Time (ps_Time p)"

definition toy_get_SharedSecret :: "bytes \<Rightarrow> proto_SharedSecret \<times> bytes" where
  "toy_get_SharedSecret s =
     (let (sec, r1) =
            (if hd s = 0 then (None, tl s)
             else (case toy_get (tl s) of (t, r) \<Rightarrow> (Some (map (\<lambda>b. char_of (unat b)) t), r)));
          (nd, r2) = toy_get_opt32 r1;
          n = unat (hd r2);
          cc = toy_get_counts n (tl r2);
          (tm, r4) = toy_get_Time (drop (4 * n) (tl r2))
      in (\<lparr> ps_Secret = sec, ps_NumDecks = nd, ps_CardCount = cc, ps_Time = tm \<rparr>, r4))"

definition toy_Marshal :: "proto_KeyExchange \<Rightarrow> string + bytes" where
  "toy_Marshal p =
     Inr (toy_put_Status (pk_Status p)
          @ (case pk_SharedSecret p of None \<Rightarrow> [0] | Some q \<Rightarrow> 1 # toy_put_SharedSecret q)
          @ toy_put (pk_KeyExchangeBytes p) @ toy_put (pk_DhPrivate p) @ toy_put (pk_Key p)
          @ toy_put (pk_Meeting1 p) @ toy_put (pk_Meeting2 p) @ toy_put (pk_Message1 p)
          @ toy_put (pk_Message2 p) @ toy_put (pk_SharedKey p))"

definition toy_Unmarshal :: "bytes \<Rightarrow> string + proto_KeyExchange" where
  "toy_Unmarshal s =
     (if s = [] then Inl ''proto: unexpected EOF''
      else
        (let (st, r1) = toy_get_Status s;
             (ss, r2) =
               (if hd r1 = 0 then (None, tl r1)
                else (case toy_get_SharedSecret (tl r1) of (q, r) \<Rightarrow> (Some q, r)));
             (kxb, r3) = toy_get r2;
             (priv, r4) = toy_get r3;
             (k, r5) = toy_get r4;
             (m1, r6) = toy_get r5;
             (m2, r7) = toy_get r6;
             (msg1, r8) = toy_get r7;
             (msg2, r9) = toy_get r8;
             (sk, r10) = toy_get r9
         in Inr \<lparr> pk_Status = st, pk_SharedSecret = ss, pk_KeyExchangeBytes = kxb,
                  pk_DhPrivate = priv, pk_Key = k, pk_Meeting1 = m1, pk_Meeting2 = m2,
                  pk_Message1 = msg1, pk_Message2 = msg2, pk_SharedKey = sk \<rparr>))"

definition toy_prims :: prims where
  "toy_prims =
     \<lparr> sha256 = toy_digest 32,
       hkdf = (\<lambda>secret salt info. toy_digest 32 secret @ toy_digest 32 (1 # secret)
                 @ toy_digest 32 (2 # secret)),
       scrypt_Key = (\<lambda>pw salt N r p keyLen. Inr (toy_digest (nat keyLen) (3 # pw))),
       linux386 = False,
       scrypt_subprocess = (\<lambda>inp. Inr (toy_digest 96 (3 # drop 4 inp))),
       rijndael_Encrypt = (\<lambda>k b. map2 (+) b k),
       rijndael_Decrypt = (\<lambda>k b. map2 (-) b k),
       curve25519_ScalarBaseMult = map (\<lambda>x. x + 9),
       curve25519_ScalarMult = (\<lambda>a p. map2 (+) a p),
       secretbox_Seal = toy_Seal,
       secretbox_Open = toy_Open,
       marshal_SharedSecret = (\<lambda>p. Inr (toy_put_SharedSecret p)),
       proto_Marshal = toy_Marshal,
       proto_Unmarshal = toy_Unmarshal,
       numCards = 2,
       Canonicalise = (\<lambda>c. c) \<rparr>"


text \<open>A text secret, and a Meeting Place of padding 48 that answers from a fixed list.\<close>

definition toy_secret :: SharedSecret where
  "toy_secret =
     \<lparr> Secret = ''pw'', Cards = \<lparr> NumDecks = 0, counts = [0, 0] \<rparr>,
       Day = 0, Month = 0, Year = 0, Hours = 0, Minutes = 0 \<rparr>"

definition script_place :: "int \<Rightarrow> (exchange_error + bytes) list \<Rightarrow> MeetingPlace" where
  "script_place pad replies =
     \<lparr> Padding = pad,
       Exchange = (\<lambda>earlier tag msg sd.
                     if length earlier < length replies then replies ! length earlier
                     else Inl (ExchangeError ''no peer'')),
       calls = [] \<rparr>"

section \<open>Secret strings: hexadecimal coding and the checksum\<close>

lemma fromHexChar_hextable:
  assumes "n < 16" shows "fromHexChar (hextable ! n) = Some (of_nat n)"
proof -
  have "list_all (\<lambda>m. fromHexChar (hextable ! m) = Some (of_nat m)) [0..<16]"
    by code_simp
  then show ?thesis using assms by (simp add: list_all_iff)
qed

lemma of_nat_nibble: assumes "k < 16" shows "(of_nat k :: byte) < 16"
proof -
  have "unat (of_nat k :: byte) = k" using assms by (simp add: unat_of_nat)
  then show ?thesis using assms by (simp add: word_less_nat_alt)
qed

lemma fromHexChar_less: "fromHexChar c = Some a \<Longrightarrow> a < 16"
  unfolding fromHexChar_def Let_def
  by (auto split: if_splits intro!: of_nat_nibble simp del: of_nat_diff)

lemma fifteen_mask: "(0x0f :: byte) = mask 4"
  by (simp add: mask_eq_exp_minus_1)

lemma byte_of_nibbles:
  "push_bit 4 (of_nat (unat (drop_bit 4 v))) OR of_nat (unat (v AND 0x0f)) = (v :: byte)"
  unfolding fifteen_mask
  by (rule bit_word_eqI) (auto simp: bit_simps)

lemma nibble_bits: assumes "(a :: byte) < 16" "bit a n" shows "n < 4"
proof -
  have "a < 2 ^ 4" using assms(1) by simp
  then have "a AND mask 4 = a" by (rule less_mask_eq)
  then have "bit (a AND mask 4) n" using assms(2) by simp
  then show ?thesis by (simp add: bit_simps)
qed

lemma hi_nibble: "a < 16 \<Longrightarrow> b < 16 \<Longrightarrow> drop_bit 4 (push_bit 4 a OR b) = (a :: byte)"
  by (rule bit_word_eqI) (auto simp: bit_simps dest: nibble_bits)

lemma lo_nibble: "a < 16 \<Longrightarrow> b < 16 \<Longrightarrow> take_bit 4 (push_bit 4 a OR b) = (b :: byte)"
  by (rule bit_word_eqI) (auto simp: bit_simps dest: nibble_bits)

lemma nibbles_inj:
  assumes "a < 16" "b < 16" "a' < 16" "b' < 16"
    and "push_bit 4 a OR b = push_bit 4 a' OR (b' :: byte)"
  shows "a = a' \<and> b = b'"
  using hi_nibble [OF assms(1,2)] hi_nibble [OF assms(3,4)]
        lo_nibble [OF assms(1,2)] lo_nibble [OF assms(3,4)] assms(5)
  by metis

lemma drop_bit_nibble: "unat (drop_bit 4 (v :: byte)) < 16"
proof -
  have "unat v < 256" using unsigned_less [of v, where 'a = nat] by simp
  moreover have "unat (drop_bit 4 v) = drop_bit 4 (unat v)" by (rule unat_drop_bit_eq)
  moreover have "drop_bit 4 (unat v) = unat v div 16" by (simp only: drop_bit_eq_div) simp
  ultimately show ?thesis by arith
qed

lemma and_nibble: "unat ((v :: byte) AND 0x0f) < 16"
proof -
  have "v AND 0x0f \<le> 0x0f" by (rule word_and_le1)
  then have "unat (v AND 0x0f) \<le> unat (0x0f :: byte)" by (simp only: word_le_nat_alt)
  then show ?thesis by simp
qed

lemma hex_Decode_Encode: "hex_Decode (hex_EncodeToString bs) = Some bs"
proof (induction bs)
  case Nil
  show ?case by (simp add: hex_EncodeToString_def)
next
  case (Cons v bs)
  have "hex_EncodeToString (v # bs) =
          hextable ! unat (drop_bit 4 v) # hextable ! unat (v AND 0x0f) # hex_EncodeToString bs"
    by (simp add: hex_EncodeToString_def)
  then show ?case
    using Cons.IH byte_of_nibbles [of v]
    by (simp add: fromHexChar_hextable drop_bit_nibble and_nibble)
qed

lemma length_hex_Encode: "length (hex_EncodeToString bs) = 2 * length bs"
  by (induction bs) (simp_all add: hex_EncodeToString_def)

lemma hex_Decode_all_hex:
  "hex_Decode s = Some b \<Longrightarrow> c \<in> set s \<Longrightarrow> fromHexChar c \<noteq> None"
  by (induction s arbitrary: b rule: hex_Decode.induct) (auto split: option.splits)

lemma hex_Decode_append:
  "even (length xs) \<Longrightarrow>
     hex_Decode (xs @ ys) =
       (case hex_Decode xs of None \<Rightarrow> None
        | Some a \<Rightarrow> (case hex_Decode ys of None \<Rightarrow> None | Some b \<Rightarrow> Some (a @ b)))"
  by (induction xs rule: hex_Decode.induct) (auto split: option.splits)

lemma hex_Decode_length: "hex_Decode s = Some b \<Longrightarrow> length s = 2 * length b"
  by (induction s arbitrary: b rule: hex_Decode.induct) (auto split: option.splits)

lemma hex_Decode_cong:
  "map fromHexChar s = map fromHexChar t \<Longrightarrow> hex_Decode s = hex_Decode t"
proof (induction s arbitrary: t rule: hex_Decode.induct)
  case 1
  then show ?case by simp
next
  case (2 p)
  then obtain q where "t = [q]" by (cases t) auto
  then show ?case by simp
next
  case (3 p q rest)
  then obtain p' q' rest' where t: "t = p' # q' # rest'"
    by (cases t; cases "tl t") auto
  with "3.prems" have eq: "fromHexChar p = fromHexChar p'" "fromHexChar q = fromHexChar q'"
    "map fromHexChar rest = map fromHexChar rest'" by auto
  show ?case
  proof (cases "fromHexChar p'")
    case None
    then show ?thesis using eq t by simp
  next
    case (Some a)
    note a = this
    show ?thesis
    proof (cases "fromHexChar q'")
      case None
      then show ?thesis using eq t a by simp
    next
      case (Some b)
      from "3.IH" [of a b rest'] eq a Some have "hex_Decode rest = hex_Decode rest'" by simp
      then show ?thesis using eq t a Some by simp
    qed
  qed
qed

lemma hex_Decode_inj:
  "hex_Decode s = Some B \<Longrightarrow> hex_Decode t = Some B \<Longrightarrow> map fromHexChar s = map fromHexChar t"
proof (induction s arbitrary: t B rule: hex_Decode.induct)
  case 1
  then have "length t = 0" using hex_Decode_length [of t B] by simp
  then show ?case by simp
next
  case (2 p)
  then show ?case by simp
next
  case (3 p q rest)
  from "3.prems"(1) obtain a b bs where
    s: "fromHexChar p = Some a" "fromHexChar q = Some b" "hex_Decode rest = Some bs"
       "B = (push_bit 4 a OR b) # bs"
    by (auto split: option.splits)
  from "3.prems"(2) s(4) have "length t = 2 * Suc (length bs)"
    using hex_Decode_length [of t B] by simp
  then obtain p' q' rest' where t: "t = p' # q' # rest'"
    by (cases t; cases "tl t") auto
  from "3.prems"(2) t obtain a' b' bs' where
    s': "fromHexChar p' = Some a'" "fromHexChar q' = Some b'" "hex_Decode rest' = Some bs'"
       "B = (push_bit 4 a' OR b') # bs'"
    by (auto split: option.splits)
  from s(4) s'(4) have e: "push_bit 4 a OR b = push_bit 4 a' OR b'" "bs = bs'" by auto
  have "a = a' \<and> b = b'"
    using nibbles_inj [OF fromHexChar_less [OF s(1)] fromHexChar_less [OF s(2)]
        fromHexChar_less [OF s'(1)] fromHexChar_less [OF s'(2)] e(1)] .
  moreover have "map fromHexChar rest = map fromHexChar rest'"
    using "3.IH" [OF s(1) s(2) s(3)] s'(3) e(2) by simp
  ultimately show ?case using s s' t by simp
qed

lemma hex_Decode_total:
  "even (length s) \<Longrightarrow> \<forall>c \<in> set s. fromHexChar c \<noteq> None \<Longrightarrow> \<exists>b. hex_Decode s = Some b"
proof (induction s rule: hex_Decode.induct)
  case 1
  show ?case by simp
next
  case (2 p)
  then show ?case by simp
next
  case (3 p q rest)
  from "3.prems"(2) obtain a b where ab: "fromHexChar p = Some a" "fromHexChar q = Some b"
    by auto
  from "3.IH" [OF ab] "3.prems" obtain bs where "hex_Decode rest = Some bs" by auto
  with ab show ?case by simp
qed

lemma hex_Encode_all_hex: "c \<in> set (hex_EncodeToString bs) \<Longrightarrow> fromHexChar c \<noteq> None"
  using hex_Decode_all_hex [OF hex_Decode_Encode] by blast

lemma hex_Encode_append:
  "hex_EncodeToString (xs @ ys) = hex_EncodeToString xs @ hex_EncodeToString ys"
  by (simp add: hex_EncodeToString_def)

lemma length_prefix: "length generatedSecretStringPrefix = 2"
  by (simp add: generatedSecretStringPrefix_def)

lemma take2_length: "take 2 s = [x, y] \<Longrightarrow> 2 \<le> length s"
  by (cases s; cases "tl s"; auto)

lemma HasPrefix_1: "HasPrefix s generatedSecretStringPrefix \<longleftrightarrow> take 2 s = ''r!''"
proof -
  have l: "length ''r!'' = (2::nat)" by simp
  show ?thesis
    unfolding HasPrefix_def generatedSecretStringPrefix_def l
    using take2_length [of s "CHR ''r''" "CHR ''!''"] by blast
qed

lemma HasPrefix_2: "HasPrefix s generatedSecretStringPrefix2 \<longleftrightarrow> take 2 s = ''r[''"
proof -
  have l: "length ''r['' = (2::nat)" by simp
  show ?thesis
    unfolding HasPrefix_def generatedSecretStringPrefix2_def l
    using take2_length [of s "CHR ''r''" "CHR ''[''"] by blast
qed

lemma isValidSecretString_iff:
  "isValidSecretString P s0 \<longleftrightarrow>
     (take 2 s0 = ''r!'' \<or> take 2 s0 = ''r['') \<and> length s0 = 38 \<and>
     (\<exists>B. hex_Decode (drop 2 s0) = Some B \<and>
          checksum P (take 16 B) = (B ! 16, B ! 17))"
proof (cases "take 2 s0 = ''r!'' \<or> take 2 s0 = ''r[''")
  case False
  then show ?thesis
    unfolding isValidSecretString_def HasPrefix_1 HasPrefix_2 by simp
next
  case True
  then have l2: "2 \<le> length s0"
    using take2_length [of s0 "CHR ''r''" "CHR ''!''"] take2_length [of s0 "CHR ''r''" "CHR ''[''"]
    by blast
  have len: "(length (drop 2 s0) mod 2 = 1 \<or> length (drop 2 s0) div 2 \<noteq> 18) \<longleftrightarrow> length s0 \<noteq> 38"
    using l2 by simp arith
  show ?thesis
  proof (cases "length s0 = 38")
    case False
    with len True show ?thesis
      unfolding isValidSecretString_def HasPrefix_1 HasPrefix_2 length_prefix Let_def
      by simp
  next
    case l: True
    with len have ok: "\<not> (length (drop 2 s0) mod 2 = 1 \<or> length (drop 2 s0) div 2 \<noteq> 18)" by simp
    show ?thesis
    proof (cases "hex_Decode (drop 2 s0)")
      case None
      with True ok l show ?thesis
        unfolding isValidSecretString_def HasPrefix_1 HasPrefix_2 length_prefix Let_def
        by simp
    next
      case (Some B)
      have "isValidSecretString P s0 \<longleftrightarrow> (B ! 16 = sha256 P (take 16 B) ! 0 \<and> B ! 17 = sha256 P (take 16 B) ! 1)"
        unfolding isValidSecretString_def HasPrefix_1 HasPrefix_2 length_prefix Let_def
        using True ok Some by auto
      with True l Some show ?thesis by (auto simp: checksum_def)
    qed
  qed
qed

lemma NewSecretString_Ok:
  assumes "NewSecretString P rnd = Ok tok"
  shows "\<exists>b. length b = 16 \<and>
           tok = ''r!'' @ hex_EncodeToString b
                  @ hex_EncodeToString [sha256 P b ! 0, sha256 P b ! 1]"
proof -
  obtain got e r where rr: "reader_Read rnd 16 = (got, e, r)" by (cases "reader_Read rnd 16") auto
  with assms have e: "e = None" by (cases e) (auto simp: NewSecretString_def)
  let ?b = "copy_into (zeros 16) got"
  have "length ?b = 16" by (simp add: copy_into_def)
  moreover have "tok = ''r!'' @ hex_EncodeToString ?b
                  @ hex_EncodeToString [sha256 P ?b ! 0, sha256 P ?b ! 1]"
    using assms rr e
    by (simp add: NewSecretString_def Let_def generatedSecretStringPrefix_def hex_Encode_append)
  ultimately show ?thesis by blast
qed

lemma set_update_hex:
  assumes "\<forall>x \<in> set s. fromHexChar x \<noteq> None" "fromHexChar c \<noteq> None"
  shows "\<forall>x \<in> set (s[j := c]). fromHexChar x \<noteq> None"
  using assms set_update_subset_insert [of s j c] by auto

lemma map_fromHexChar_update:
  "j < length s \<Longrightarrow>
   map fromHexChar (s[j := c]) = map fromHexChar s \<longleftrightarrow> fromHexChar c = fromHexChar (s ! j)"
proof
  assume j: "j < length s" and eq: "map fromHexChar (s[j := c]) = map fromHexChar s"
  then have "map fromHexChar (s[j := c]) ! j = map fromHexChar s ! j" by simp
  with j show "fromHexChar c = fromHexChar (s ! j)" by simp
next
  assume j: "j < length s" and eq: "fromHexChar c = fromHexChar (s ! j)"
  have "map fromHexChar (s[j := c]) = (map fromHexChar s)[j := fromHexChar c]"
    by (rule map_update)
  also have "\<dots> = map fromHexChar s" using j eq by (simp add: list_update_same_conv)
  finally show "map fromHexChar (s[j := c]) = map fromHexChar s" .
qed

lemma hex_Decode_update_same:
  assumes "hex_Decode s = Some B" "j < length s"
  shows "hex_Decode (s[j := c]) = Some B \<longleftrightarrow> fromHexChar c = fromHexChar (s ! j)"
proof
  assume "hex_Decode (s[j := c]) = Some B"
  from hex_Decode_inj [OF this assms(1)] show "fromHexChar c = fromHexChar (s ! j)"
    using map_fromHexChar_update [OF assms(2)] by simp
next
  assume "fromHexChar c = fromHexChar (s ! j)"
  then have "map fromHexChar (s[j := c]) = map fromHexChar s"
    using map_fromHexChar_update [OF assms(2)] by simp
  from hex_Decode_cong [OF this] assms(1) show "hex_Decode (s[j := c]) = Some B" by simp
qed

lemma mutated_digits:
  assumes b: "length b = 16" and j: "j < 36"
    and d: "d0 = sha256 P b ! 0" "d1 = sha256 P b ! 1"
    and s: "s = hex_EncodeToString b @ hex_EncodeToString [d0, d1]"
  shows "(\<exists>B. hex_Decode (s[j := c]) = Some B \<and> checksum P (take 16 B) = (B ! 16, B ! 17)) \<longleftrightarrow>
         fromHexChar c = fromHexChar (s ! j) \<or>
         (j < 32 \<and> fromHexChar c \<noteq> None \<and>
          checksum P (case hex_Decode (s[j := c]) of None \<Rightarrow> [] | Some B \<Rightarrow> take 16 B) = checksum P b)"
    (is "?L \<longleftrightarrow> ?R")
proof -
  let ?hb = "hex_EncodeToString b" and ?hc = "hex_EncodeToString [d0, d1]"
  have lhb: "length ?hb = 32" and lhc: "length ?hc = 4"
    using b by (simp_all add: length_hex_Encode)
  have ls: "length s = 36" using s lhb lhc by simp
  have dec_hb: "hex_Decode ?hb = Some b" and dec_hc: "hex_Decode ?hc = Some [d0, d1]"
    by (rule hex_Decode_Encode)+
  have ev: "even (length ?hb)" using lhb by simp
  have dec_s: "hex_Decode s = Some (b @ [d0, d1])"
    unfolding s hex_Decode_append [OF ev] dec_hb dec_hc by simp
  have hex_s: "\<forall>x \<in> set s. fromHexChar x \<noteq> None"
    using hex_Decode_all_hex [OF dec_s] by blast
  have cs: "checksum P b = (d0, d1)" using d by (simp add: checksum_def)
  have sj: "fromHexChar (s ! j) \<noteq> None" using hex_s j ls by simp
  show ?thesis
  proof (cases "fromHexChar c")
    case None
    have "c \<in> set (s[j := c])" using j ls by (simp add: set_update_memI)
    then have "hex_Decode (s[j := c]) = None"
      using hex_Decode_all_hex [of "s[j := c]" _ c] None by (cases "hex_Decode (s[j := c])") auto
    then show ?thesis using None sj by auto
  next
    case (Some v)
    show ?thesis
    proof (cases "j < 32")
      case True
      have upd: "s[j := c] = ?hb[j := c] @ ?hc"
        unfolding s using True lhb by (simp add: list_update_append)
      have "\<forall>x \<in> set (?hb[j := c]). fromHexChar x \<noteq> None"
        using set_update_hex [of ?hb c j] hex_Decode_all_hex [OF dec_hb] Some by auto
      moreover have ev': "even (length (?hb[j := c]))" using lhb by simp
      ultimately obtain b' where b': "hex_Decode (?hb[j := c]) = Some b'"
        using hex_Decode_total by blast
      have lb': "length b' = 16" using hex_Decode_length [OF b'] lhb by simp
      have dec': "hex_Decode (s[j := c]) = Some (b' @ [d0, d1])"
        unfolding upd hex_Decode_append [OF ev'] b' dec_hc by simp
      have L: "?L \<longleftrightarrow> checksum P b' = checksum P b"
        using dec' lb' cs by (simp add: nth_append)
      have same: "fromHexChar c = fromHexChar (s ! j) \<Longrightarrow> b' = b"
      proof -
        assume "fromHexChar c = fromHexChar (s ! j)"
        then have "fromHexChar c = fromHexChar (?hb ! j)" using s True lhb by (simp add: nth_append)
        then have "hex_Decode (?hb[j := c]) = Some b"
          using hex_Decode_update_same [OF dec_hb, of j c] True lhb by simp
        with b' show "b' = b" by simp
      qed
      have R: "?R \<longleftrightarrow> checksum P b' = checksum P b"
        using dec' lb' True Some same by auto
      from L R show ?thesis by simp
    next
      case False
      define k where "k = j - 32"
      have k: "k < 4" using False j by (simp add: k_def)
      have upd: "s[j := c] = ?hb @ ?hc[k := c]"
        unfolding s k_def using False lhb by (simp add: list_update_append)
      have sjk: "s ! j = ?hc ! k" unfolding s k_def using False lhb by (simp add: nth_append)
      have "\<forall>x \<in> set (?hc[k := c]). fromHexChar x \<noteq> None"
        using set_update_hex [of ?hc c k] hex_Decode_all_hex [OF dec_hc] Some by auto
      moreover have "even (length (?hc[k := c]))" using lhc by simp
      ultimately obtain r where r: "hex_Decode (?hc[k := c]) = Some r"
        using hex_Decode_total by blast
      have lr: "length r = 2" using hex_Decode_length [OF r] lhc by simp
      then obtain r0 r1 where r01: "r = [r0, r1]"
        by (cases r; cases "tl r"; auto)
      have dec': "hex_Decode (s[j := c]) = Some (b @ r)"
        unfolding upd hex_Decode_append [OF ev] dec_hb r by simp
      have "?L \<longleftrightarrow> r = [d0, d1]"
        using dec' b cs r01 by (auto simp: nth_append)
      also have "\<dots> \<longleftrightarrow> hex_Decode (?hc[k := c]) = Some [d0, d1]" using r by auto
      also have "\<dots> \<longleftrightarrow> fromHexChar c = fromHexChar (?hc ! k)"
        using hex_Decode_update_same [OF dec_hc, of k c] k lhc by simp
      finally show ?thesis using False sjk by simp
    qed
  qed
qed

text \<open>
  C6, as the code has it. A token from \<^verbatim>\<open>NewSecretString\<close> with one byte changed is
  accepted by \<^verbatim>\<open>isValidSecretString\<close> in exactly three cases: the second character became
  \<^verbatim>\<open>[\<close> (the other recognised prefix); a hexadecimal digit became another character for
  the same digit (the decoder reads both letter cases); or one of the 32 data digits
  changed and the first two digest bytes of the changed data equal those of the
  original. Every other change is rejected: of the first character, of the second to
  anything but \<^verbatim>\<open>[\<close>, to a character that is no hexadecimal digit, and of a checksum
  digit to a digit of another value.
\<close>

theorem mutated_token_valid_iff:
  assumes gen: "NewSecretString P rnd = Ok tok" and i: "i < length tok" and c: "c \<noteq> tok ! i"
  shows "isValidSecretString P (tok[i := c]) \<longleftrightarrow>
           (i = 1 \<and> c = CHR ''['') \<or>
           (2 \<le> i \<and> fromHexChar c = fromHexChar (tok ! i)) \<or>
           (2 \<le> i \<and> i < 34 \<and> fromHexChar c \<noteq> None \<and>
            checksum P (token_data (tok[i := c])) = checksum P (token_data tok))"
proof -
  from NewSecretString_Ok [OF gen] obtain b where b: "length b = 16"
    and tok: "tok = ''r!'' @ hex_EncodeToString b
                    @ hex_EncodeToString [sha256 P b ! 0, sha256 P b ! 1]"
    by blast
  define s where "s = hex_EncodeToString b @ hex_EncodeToString [sha256 P b ! 0, sha256 P b ! 1]"
  have toks: "tok = CHR ''r'' # CHR ''!'' # s" using tok by (simp add: s_def)
  have ls: "length s = 36" using b by (simp add: s_def length_hex_Encode)
  have dec_s: "hex_Decode s = Some (b @ [sha256 P b ! 0, sha256 P b ! 1])"
    unfolding s_def hex_Encode_append [symmetric] by (rule hex_Decode_Encode)
  have data: "token_data tok = b" using toks dec_s b by (simp add: token_data_def)
  have valid_s: "\<exists>B. hex_Decode s = Some B \<and> checksum P (take 16 B) = (B ! 16, B ! 17)"
    using dec_s b by (simp add: checksum_def nth_append)
  consider "i = 0" | "i = 1" | "2 \<le> i" by arith
  then show ?thesis
  proof cases
    case 1
    with c toks have "c \<noteq> CHR ''r''" by simp
    then have "\<not> isValidSecretString P (tok[i := c])"
      using 1 toks by (simp add: isValidSecretString_iff)
    then show ?thesis using 1 by simp
  next
    case 2
    with c toks have "c \<noteq> CHR ''!''" by simp
    then have "isValidSecretString P (tok[i := c]) \<longleftrightarrow> c = CHR ''[''"
      using 2 toks ls valid_s by (simp add: isValidSecretString_iff)
    then show ?thesis using 2 by simp
  next
    case 3
    define j where "j = i - 2"
    have j: "j < 36" using i 3 toks ls by (simp add: j_def)
    have ij: "i = Suc (Suc j)" using 3 by (simp add: j_def)
    have upd: "tok[i := c] = CHR ''r'' # CHR ''!'' # s[j := c]" using toks ij by simp
    have nth: "tok ! i = s ! j" using toks ij by simp
    have "isValidSecretString P (tok[i := c]) \<longleftrightarrow>
            (\<exists>B. hex_Decode (s[j := c]) = Some B \<and> checksum P (take 16 B) = (B ! 16, B ! 17))"
      unfolding upd using ls by (simp add: isValidSecretString_iff)
    also have "\<dots> \<longleftrightarrow> fromHexChar c = fromHexChar (s ! j) \<or>
         (j < 32 \<and> fromHexChar c \<noteq> None \<and>
          checksum P (case hex_Decode (s[j := c]) of None \<Rightarrow> [] | Some B \<Rightarrow> take 16 B) = checksum P b)"
      by (rule mutated_digits [OF b j refl refl s_def])
    also have "(case hex_Decode (s[j := c]) of None \<Rightarrow> [] | Some B \<Rightarrow> take 16 B) = token_data (tok[i := c])"
      unfolding upd by (simp add: token_data_def)
    finally show ?thesis using 3 nth data ij by auto
  qed
qed

text \<open>
  The theorem at the token of sixteen bytes \<^verbatim>\<open>0xab\<close>, whose last checksum digit is changed
  from \<^verbatim>\<open>1\<close> to \<^verbatim>\<open>2\<close>: rejected.
\<close>

theorem mutated_token_valid_iff_witness:
  "NewSecretString toy_prims (replicate 16 0xab) = Ok ''r!ababababababababababababababababb1b1''
   \<and> 37 < length ''r!ababababababababababababababababb1b1''
   \<and> CHR ''2'' \<noteq> ''r!ababababababababababababababababb1b1'' ! 37
   \<and> \<not> isValidSecretString toy_prims (''r!ababababababababababababababababb1b1''[37 := CHR ''2''])"
proof -
  have g: "NewSecretString toy_prims (replicate 16 0xab) = Ok ''r!ababababababababababababababababb1b1''"
    by code_simp
  have l: "37 < length ''r!ababababababababababababababababb1b1''" by simp
  have n: "CHR ''2'' \<noteq> ''r!ababababababababababababababababb1b1'' ! 37" by simp
  have "\<not> isValidSecretString toy_prims (''r!ababababababababababababababababb1b1''[37 := CHR ''2''])"
    unfolding mutated_token_valid_iff [OF g l n] by (simp add: fromHexChar_def)
  with g l n show ?thesis by blast
qed

text \<open>
  C6 as stated fails: changing the second character of that token to \<^verbatim>\<open>[\<close>, or its first
  digit \<^verbatim>\<open>a\<close> to \<^verbatim>\<open>A\<close>, leaves the token valid.
\<close>

theorem mutated_token_counterexample:
  "NewSecretString toy_prims (replicate 16 0xab) = Ok ''r!ababababababababababababababababb1b1''
   \<and> ''r!ababababababababababababababababb1b1'' ! 1 \<noteq> CHR ''[''
   \<and> isValidSecretString toy_prims (''r!ababababababababababababababababb1b1''[1 := CHR ''[''])
   \<and> ''r!ababababababababababababababababb1b1'' ! 2 \<noteq> CHR ''A''
   \<and> isValidSecretString toy_prims (''r!ababababababababababababababababb1b1''[2 := CHR ''A''])"
  by code_simp

section \<open>Deserialising a shared secret\<close>

lemma newSharedSecret_Some_iff:
  "newSharedSecret P p \<noteq> None \<longleftrightarrow>
     (if 0 < of_int32 (GetNumDecks p) then length (ps_CardCount p) = numCards P
      else GetSecret p \<noteq> [])"
  by (simp add: newSharedSecret_def Let_def)

lemma newSharedSecret_fields:
  assumes "newSharedSecret P p = Some s"
  shows "Secret s = GetSecret p" "NumDecks (Cards s) = of_int32 (GetNumDecks p)"
    "counts (Cards s) = (if 0 < of_int32 (GetNumDecks p) then ps_CardCount p else replicate (numCards P) 0)"
  using assms by (auto simp: newSharedSecret_def Let_def copy_into_def split: if_splits)

text \<open>
  C5, as the code has it. \<^verbatim>\<open>newSharedSecret\<close> accepts a record exactly when its deck count is
  positive and the card-count vector has \<^verbatim>\<open>numCards\<close> entries, or its deck count is not
  positive and its text secret is not empty. A record with neither a text secret nor a
  positive deck count is rejected, and an accepted record has a non-empty text secret or a
  positive deck count (it may have both).
\<close>

theorem newSharedSecret_accepts:
  "(newSharedSecret P p \<noteq> None \<longleftrightarrow>
      (if 0 < of_int32 (GetNumDecks p) then length (ps_CardCount p) = numCards P
       else GetSecret p \<noteq> []))
   \<and> (GetSecret p = [] \<and> of_int32 (GetNumDecks p) \<le> 0 \<longrightarrow> newSharedSecret P p = None)
   \<and> (\<forall>s. newSharedSecret P p = Some s \<longrightarrow>
          Secret s = GetSecret p \<and> NumDecks (Cards s) = of_int32 (GetNumDecks p) \<and>
          (Secret s \<noteq> [] \<or> 0 < NumDecks (Cards s)))"
proof -
  have 1: "newSharedSecret P p \<noteq> None \<longleftrightarrow>
      (if 0 < of_int32 (GetNumDecks p) then length (ps_CardCount p) = numCards P
       else GetSecret p \<noteq> [])" by (rule newSharedSecret_Some_iff)
  have 2: "GetSecret p = [] \<and> of_int32 (GetNumDecks p) \<le> 0 \<longrightarrow> newSharedSecret P p = None"
    using 1 by auto
  have 3: "Secret s = GetSecret p \<and> NumDecks (Cards s) = of_int32 (GetNumDecks p) \<and>
          (Secret s \<noteq> [] \<or> 0 < NumDecks (Cards s))" if "newSharedSecret P p = Some s" for s
    using newSharedSecret_fields(1,2) [OF that] 1 that by (auto split: if_splits)
  from 1 2 3 show ?thesis by blast
qed

text \<open>
  The theorem at the empty record (rejected) and at a record with the text secret
  \<^verbatim>\<open>pw\<close> only (accepted, one form).
\<close>

theorem newSharedSecret_accepts_witness:
  "newSharedSecret toy_prims \<lparr> ps_Secret = None, ps_NumDecks = None, ps_CardCount = [], ps_Time = None \<rparr> = None
   \<and> newSharedSecret toy_prims \<lparr> ps_Secret = Some ''pw'', ps_NumDecks = None, ps_CardCount = [], ps_Time = None \<rparr> \<noteq> None
   \<and> exactly_one_form (the (newSharedSecret toy_prims
        \<lparr> ps_Secret = Some ''pw'', ps_NumDecks = None, ps_CardCount = [], ps_Time = None \<rparr>))"
proof -
  let ?p0 = "\<lparr> ps_Secret = None, ps_NumDecks = None, ps_CardCount = [], ps_Time = None \<rparr>"
  let ?p1 = "\<lparr> ps_Secret = Some ''pw'', ps_NumDecks = None, ps_CardCount = [], ps_Time = None \<rparr>"
  have a: "newSharedSecret toy_prims ?p0 = None"
    using newSharedSecret_accepts [of toy_prims ?p0]
    by (simp add: GetSecret_def GetNumDecks_def of_int32_def)
  have b: "newSharedSecret toy_prims ?p1 \<noteq> None"
    using newSharedSecret_accepts [of toy_prims ?p1]
    by (simp add: GetSecret_def GetNumDecks_def of_int32_def)
  then obtain s where s: "newSharedSecret toy_prims ?p1 = Some s" by blast
  with newSharedSecret_accepts [of toy_prims ?p1]
  have "Secret s = ''pw''" "NumDecks (Cards s) = 0"
    by (simp_all add: GetSecret_def GetNumDecks_def of_int32_def)
  then have "exactly_one_form s" by (simp add: exactly_one_form_def)
  with a b s show ?thesis by simp
qed

text \<open>
  C5 as stated fails: a record with a text secret and a positive deck count is accepted
  although both forms are present, and a record with a positive deck count only is
  rejected when its card-count vector has the wrong length.
\<close>

theorem newSharedSecret_counterexample:
  "map_option exactly_one_form
     (newSharedSecret toy_prims
        \<lparr> ps_Secret = Some ''pw'', ps_NumDecks = Some 1, ps_CardCount = [1, 1], ps_Time = None \<rparr>)
     = Some False
   \<and> newSharedSecret toy_prims
        \<lparr> ps_Secret = None, ps_NumDecks = Some 1, ps_CardCount = [1], ps_Time = None \<rparr> = None"
  by (simp add: newSharedSecret_def Let_def GetSecret_def GetNumDecks_def of_int32_def
      GetTimeField_def toy_prims_def exactly_one_form_def copy_into_def)

section \<open>The key-registration handlers store and fetch under different identifiers\<close>






section \<open>The steps of the exchange, one by one\<close>

lemma io_ReadFull_None:
  "io_ReadFull r n = (got, None, r') \<longleftrightarrow> n \<le> length r \<and> got = take n r \<and> r' = drop n r"
  by (auto simp: io_ReadFull_def split: if_splits)

lemma io_ReadFull_Some:
  "io_ReadFull r n = (got, Some e, r') \<Longrightarrow> length r < n \<and> (e = ErrEOF \<or> e = ErrUnexpectedEOF)"
  by (auto simp: io_ReadFull_def split: if_splits)

lemma updateSerialised_Ok:
  "updateSerialised P kx = Ok kx' \<longleftrightarrow>
     (\<exists>bs. proto_Marshal P (snapshot P kx) = Inr bs \<and> kx' = kx\<lparr> serialised := bs \<rparr>)"
  by (auto simp: updateSerialised_def split: sum.splits)

lemma updateSerialised_not_Err: "updateSerialised P kx \<noteq> Err e"
  by (simp add: updateSerialised_def split: sum.splits)

lemma updateSerialised_Panic:
  "updateSerialised P kx = Panic s \<Longrightarrow> s = ''proto.Marshal failed''"
  by (simp add: updateSerialised_def split: sum.splits)

lemma shouldStop_frame:
  "snd (shouldStop kx) = kx\<lparr> ShutdownChan := ShutdownChan (snd (shouldStop kx)) \<rparr>"
  by (simp add: shouldStop_def split: chan.splits nat.splits)

lemma exchange2_cases:
  "exchange2 P kx =
     (case Exchange (meetingPlace kx) (calls (meetingPlace kx)) (meeting2 kx) (message2 kx) (ShutdownChan kx) of
            Inl e \<Rightarrow> Err (error_of e)
          | Inr reply \<Rightarrow>
              if length reply < 24 then Err ErrReplyTooSmall
              else if sharedKey kx ! 0 = 0 \<and> sharedKey kx ! 1 = 0 then Panic ''here''
              else (case secretbox_Open P (drop 24 reply) (copy_into (zeros 24) reply) (sharedKey kx) of
                      None \<Rightarrow> Err ErrCannotAuthenticate
                    | Some message \<Rightarrow>
                        if length message < 4 then Err ErrPeerInvalid
                        else if le_Uint32 message > of_nat (length (drop 4 message)) then Err ErrPeerTruncated
                        else Ok (take (unat (le_Uint32 message)) (drop 4 message))),
      kx\<lparr> meetingPlace := (meetingPlace kx)\<lparr> calls := calls (meetingPlace kx) @ [(meeting2 kx, message2 kx)] \<rparr> \<rparr>)"
  by (auto simp: exchange2_def call_Exchange_def Let_def split: sum.splits option.splits)

lemma exchange2_state:
  "snd (exchange2 P kx) =
     kx\<lparr> meetingPlace := (meetingPlace kx)\<lparr> calls := calls (meetingPlace kx) @ [(meeting2 kx, message2 kx)] \<rparr> \<rparr>"
  by (simp add: exchange2_cases)

lemma exchange2_panic_iff:
  "fst (exchange2 P kx) = Panic s \<longleftrightarrow>
     s = ''here'' \<and> sharedKey kx ! 0 = 0 \<and> sharedKey kx ! 1 = 0 \<and>
     (\<exists>reply. Exchange (meetingPlace kx) (calls (meetingPlace kx)) (meeting2 kx) (message2 kx)
                (ShutdownChan kx) = Inr reply \<and> 24 \<le> length reply)"
  by (auto simp: exchange2_cases split: sum.splits option.splits)

lemma exchange2_no_Open:
  assumes "sharedKey kx ! 0 = 0" "sharedKey kx ! 1 = 0"
  shows "exchange2 (P\<lparr> secretbox_Open := f \<rparr>) kx = exchange2 P kx"
  using assms by (simp add: exchange2_cases split: sum.splits)

lemma exchange1_Inl:
  assumes "Exchange (meetingPlace kx) (calls (meetingPlace kx)) (meeting1 kx) (message1 kx) (ShutdownChan kx) = Inl e"
  shows "exchange1 P kx = (Err (error_of e),
           kx\<lparr> meetingPlace := (meetingPlace kx)\<lparr> calls := calls (meetingPlace kx) @ [(meeting1 kx, message1 kx)] \<rparr> \<rparr>)"
  using assms unfolding exchange1_def call_Exchange_def by simp

lemma exchange1_short:
  assumes "Exchange (meetingPlace kx) (calls (meetingPlace kx)) (meeting1 kx) (message1 kx) (ShutdownChan kx) = Inr reply"
    and "length reply < 32"
  shows "exchange1 P kx = (Err ErrReplyTooSmall,
           kx\<lparr> meetingPlace := (meetingPlace kx)\<lparr> calls := calls (meetingPlace kx) @ [(meeting1 kx, message1 kx)] \<rparr> \<rparr>)"
  using assms unfolding exchange1_def call_Exchange_def by simp

lemma seal_message2_shape:
  "snd (seal_message2 P kx) =
     kx\<lparr> rand := rand (snd (seal_message2 P kx)), message2 := message2 (snd (seal_message2 P kx)) \<rparr>"
  unfolding seal_message2_def Let_def io_ReadFull_def
  by simp

lemma seal_message2_frame:
  "Log (snd (seal_message2 P kx)) = Log kx"
  "Testing (snd (seal_message2 P kx)) = Testing kx"
  "ShutdownChan (snd (seal_message2 P kx)) = ShutdownChan kx"
  "status (snd (seal_message2 P kx)) = status kx"
  "sharedSecret (snd (seal_message2 P kx)) = sharedSecret kx"
  "serialised (snd (seal_message2 P kx)) = serialised kx"
  "kxBytes (snd (seal_message2 P kx)) = kxBytes kx"
  "key (snd (seal_message2 P kx)) = key kx"
  "meeting1 (snd (seal_message2 P kx)) = meeting1 kx"
  "meeting2 (snd (seal_message2 P kx)) = meeting2 kx"
  "dhPublic (snd (seal_message2 P kx)) = dhPublic kx"
  "dhPrivate (snd (seal_message2 P kx)) = dhPrivate kx"
  "sharedKey (snd (seal_message2 P kx)) = sharedKey kx"
  "message1 (snd (seal_message2 P kx)) = message1 kx"
  "meetingPlace (snd (seal_message2 P kx)) = meetingPlace kx"
  by (subst seal_message2_shape, simp)+

lemma seal_message2_no_panic:
  assumes "4 + int (length (kxBytes kx)) \<le> Padding (meetingPlace kx) - 24 - secretbox_Overhead"
  shows "fst (seal_message2 P kx) \<noteq> Panic s"
  using assms unfolding seal_message2_def Let_def io_ReadFull_def
  by simp

lemma seal_message2_not_here: "fst (seal_message2 P kx) \<noteq> Panic ''here''"
  unfolding seal_message2_def Let_def io_ReadFull_def
  by simp

lemma length_le_bytes32: "length (le_bytes32 v) = 4"
  by (simp add: le_bytes32_def)

lemma padded_prefix:
  assumes "4 + length kxb \<le> n"
  shows "take (4 + length kxb)
           (take 4 (le_bytes32 v @ zeros (n - 4))
            @ copy_into (drop 4 (le_bytes32 v @ zeros (n - 4))) kxb) = le_bytes32 v @ kxb"
  using assms by (simp add: length_le_bytes32 copy_into_def)

lemma copy_nonce:
  assumes "length nonce = 24"
  shows "copy_into (zeros (24 + k)) nonce = nonce @ zeros k"
  using assms by (simp add: copy_into_def)

lemma copy_box:
  assumes "length box \<le> k"
  shows "copy_into (zeros k) box = box @ zeros (k - length box)"
  using assms by (simp add: copy_into_def)

lemma seal_message2_Ok:
  assumes ok: "fst (seal_message2 P kx) = Ok u"
  defines "n \<equiv> nat (Padding (meetingPlace kx)) - 40"
  defines "f \<equiv> n - (4 + length (kxBytes kx))"
  defines "padded \<equiv> le_bytes32 (of_nat (length (kxBytes kx))) @ kxBytes kx @ take f (rand kx)"
  defines "nonce \<equiv> take 24 (drop f (rand kx))"
  shows "44 + int (length (kxBytes kx)) \<le> Padding (meetingPlace kx)"
    and "f + 24 \<le> length (rand kx)"
    and "rand (snd (seal_message2 P kx)) = drop (f + 24) (rand kx)"
    and "length padded = n" and "length nonce = 24"
    and "message2 (snd (seal_message2 P kx)) =
           (if length (secretbox_Seal P padded nonce (sharedKey kx)) \<le> n + 16
            then nonce @ secretbox_Seal P padded nonce (sharedKey kx)
                 @ zeros (n + 16 - length (secretbox_Seal P padded nonce (sharedKey kx)))
            else nonce @ zeros (n + 16))"
proof -
  let ?pad = "Padding (meetingPlace kx)"
  have fit: "44 + int (length (kxBytes kx)) \<le> ?pad"
    using ok unfolding seal_message2_def Let_def secretbox_Overhead_def
    by (simp split: if_splits)
  then show "44 + int (length (kxBytes kx)) \<le> ?pad" .
  have n: "int n = ?pad - 40" "4 + length (kxBytes kx) \<le> n" using fit by (simp_all add: n_def)
  have nn: "nat (?pad - 24 - secretbox_Overhead) = n" by (simp add: n_def secretbox_Overhead_def)
  have ff: "nat (?pad - 24 - secretbox_Overhead) - (4 + length (kxBytes kx)) = f"
    by (simp add: nn f_def)
  have conds: "\<not> ?pad - 24 - secretbox_Overhead < 0" "\<not> ?pad - 24 - secretbox_Overhead < 4"
    "\<not> 4 + int (length (kxBytes kx)) > ?pad - 24 - secretbox_Overhead"
    using fit by (simp_all add: secretbox_Overhead_def)
  obtain got e rnd' where r1: "io_ReadFull (rand kx) f = (got, e, rnd')"
    by (cases "io_ReadFull (rand kx) f") auto
  have e: "e = None"
    using ok fit unfolding seal_message2_def Let_def ff
    by (cases e) (simp_all add: secretbox_Overhead_def r1)
  from r1 e have g: "f \<le> length (rand kx)" "got = take f (rand kx)" "rnd' = drop f (rand kx)"
    by (simp_all add: io_ReadFull_None)
  obtain nc e2 rnd'' where r2: "io_ReadFull rnd' 24 = (nc, e2, rnd'')"
    by (cases "io_ReadFull rnd' 24") auto
  have e2: "e2 = None"
    using ok fit unfolding seal_message2_def Let_def ff
    by (cases e2) (simp_all add: secretbox_Overhead_def r1 e r2)
  from r2 e2 have g2: "24 \<le> length rnd'" "nc = take 24 rnd'" "rnd'' = drop 24 rnd'"
    by (simp_all add: io_ReadFull_None)
  have step: "seal_message2 P kx =
      (Ok (),
       kx\<lparr> rand := rnd'',
            message2 :=
              (if length (secretbox_Seal P (le_bytes32 (of_nat (length (kxBytes kx))) @ kxBytes kx @ got) nc (sharedKey kx))
                    \<le> nat ?pad - 24
               then take 24 (copy_into (zeros (nat ?pad)) nc)
                    @ copy_into (drop 24 (copy_into (zeros (nat ?pad)) nc))
                        (secretbox_Seal P (le_bytes32 (of_nat (length (kxBytes kx))) @ kxBytes kx @ got) nc (sharedKey kx))
               else copy_into (zeros (nat ?pad)) nc) \<rparr>)"
    unfolding seal_message2_def Let_def nn f_def [symmetric]
    by (simp only: conds if_False r1 e r2 e2 prod.case option.case padded_prefix [OF n(2)]
        append_assoc)
  show 2: "f + 24 \<le> length (rand kx)" using g g2 by simp
  show "rand (snd (seal_message2 P kx)) = drop (f + 24) (rand kx)"
    using g g2 by (simp add: step add.commute)
  show lp: "length padded = n" using g n by (simp add: padded_def f_def le_bytes32_def)
  show ln: "length nonce = 24" using 2 by (simp add: nonce_def)
  have pad24: "nat ?pad - 24 = n + 16" "nat ?pad = 24 + (n + 16)" using n fit by (simp_all add: n_def)
  have nc: "nc = nonce" using g g2 by (simp add: nonce_def)
  have pd: "le_bytes32 (of_nat (length (kxBytes kx))) @ kxBytes kx @ got = padded"
    using g by (simp add: padded_def)
  show "message2 (snd (seal_message2 P kx)) =
           (if length (secretbox_Seal P padded nonce (sharedKey kx)) \<le> n + 16
            then nonce @ secretbox_Seal P padded nonce (sharedKey kx)
                 @ zeros (n + 16 - length (secretbox_Seal P padded nonce (sharedKey kx)))
            else nonce @ zeros (n + 16))"
    using ln unfolding step nc pd pad24
    by (simp add: copy_nonce copy_box add.commute)
qed

lemma exchange1_cases:
  "exchange1 P kx =
     (case Exchange (meetingPlace kx) (calls (meetingPlace kx)) (meeting1 kx) (message1 kx) (ShutdownChan kx) of
        Inl e \<Rightarrow> (Err (error_of e),
                  kx\<lparr> meetingPlace := (meetingPlace kx)\<lparr> calls := calls (meetingPlace kx) @ [(meeting1 kx, message1 kx)] \<rparr> \<rparr>)
      | Inr reply \<Rightarrow>
          if length reply < 32
          then (Err ErrReplyTooSmall,
                kx\<lparr> meetingPlace := (meetingPlace kx)\<lparr> calls := calls (meetingPlace kx) @ [(meeting1 kx, message1 kx)] \<rparr> \<rparr>)
          else seal_message2 P
                 (kx\<lparr> meetingPlace := (meetingPlace kx)\<lparr> calls := calls (meetingPlace kx) @ [(meeting1 kx, message1 kx)] \<rparr>,
                      sharedKey := array_of 32 0 (curve25519_ScalarMult P (dhPrivate kx)
                                     (array_of 32 0 (rijndael_Decrypt P (key kx) (take 32 reply)))) \<rparr>))"
  unfolding exchange1_def call_Exchange_def Let_def
  by (simp add: copy_into_def split: sum.splits)

lemma exchange1_frame:
  "Log (snd (exchange1 P kx)) = Log kx"
  "Testing (snd (exchange1 P kx)) = Testing kx"
  "ShutdownChan (snd (exchange1 P kx)) = ShutdownChan kx"
  "status (snd (exchange1 P kx)) = status kx"
  "sharedSecret (snd (exchange1 P kx)) = sharedSecret kx"
  "serialised (snd (exchange1 P kx)) = serialised kx"
  "kxBytes (snd (exchange1 P kx)) = kxBytes kx"
  "key (snd (exchange1 P kx)) = key kx"
  "meeting1 (snd (exchange1 P kx)) = meeting1 kx"
  "meeting2 (snd (exchange1 P kx)) = meeting2 kx"
  "dhPublic (snd (exchange1 P kx)) = dhPublic kx"
  "dhPrivate (snd (exchange1 P kx)) = dhPrivate kx"
  "message1 (snd (exchange1 P kx)) = message1 kx"
  "meetingPlace (snd (exchange1 P kx)) =
     (meetingPlace kx)\<lparr> calls := calls (meetingPlace kx) @ [(meeting1 kx, message1 kx)] \<rparr>"
  unfolding exchange1_cases
  by (simp_all add: seal_message2_frame split: sum.splits)

lemma derive_keys_shape:
  "snd (derive_keys P ser kx) =
     kx\<lparr> key := key (snd (derive_keys P ser kx)),
          meeting1 := meeting1 (snd (derive_keys P ser kx)),
          meeting2 := meeting2 (snd (derive_keys P ser kx)) \<rparr>"
  unfolding derive_keys_def Let_def hkdf_Read_def
  by (simp split: sum.splits)

lemma derive_keys_frame:
  "Log (snd (derive_keys P ser kx)) = Log kx"
  "Testing (snd (derive_keys P ser kx)) = Testing kx"
  "ShutdownChan (snd (derive_keys P ser kx)) = ShutdownChan kx"
  "rand (snd (derive_keys P ser kx)) = rand kx"
  "status (snd (derive_keys P ser kx)) = status kx"
  "meetingPlace (snd (derive_keys P ser kx)) = meetingPlace kx"
  "sharedSecret (snd (derive_keys P ser kx)) = sharedSecret kx"
  "serialised (snd (derive_keys P ser kx)) = serialised kx"
  "kxBytes (snd (derive_keys P ser kx)) = kxBytes kx"
  "dhPublic (snd (derive_keys P ser kx)) = dhPublic kx"
  "dhPrivate (snd (derive_keys P ser kx)) = dhPrivate kx"
  "sharedKey (snd (derive_keys P ser kx)) = sharedKey kx"
  "message1 (snd (derive_keys P ser kx)) = message1 kx"
  "message2 (snd (derive_keys P ser kx)) = message2 kx"
  by (subst derive_keys_shape, simp)+

lemma derive_keys_outcome:
  "fst (derive_keys P ser kx) \<noteq> Err ErrInitialTooLarge"
  "fst (derive_keys P ser kx) \<noteq> Err ShutdownErr"
  "fst (derive_keys P ser kx) \<noteq> Panic ''here''"
  "fst (derive_keys P ser kx) \<noteq> Panic ''make: len out of range''"
  "fst (derive_keys P ser kx) \<noteq> Panic ''PutUint32: index out of range''"
  "fst (derive_keys P ser kx) \<noteq> Panic ''padded[4+len(kxBytes):]: slice bounds out of range''"
  unfolding derive_keys_def Let_def hkdf_Read_def
  by (simp_all split: sum.splits)

lemma length_array_of: "length (array_of n z xs) = n"
  by (simp add: array_of_def)

lemma message1_layout:
  assumes "length enc = 32" "32 \<le> l"
  shows "take 32 (copy_into (zeros l) enc) @ copy_into (drop 32 (copy_into (zeros l) enc)) got
           = enc @ copy_into (zeros (l - 32)) got"
  using assms by (simp add: copy_into_def)

lemma derivePassword_alt:
  "derivePassword P kx =
     (case marshal_SharedSecret P (toProto P (sharedSecret kx)) of
        Inl e \<Rightarrow> (Err (ErrExternal e), kx)
      | Inr ser \<Rightarrow>
          (case fst (derive_keys P ser kx) of
             Err e \<Rightarrow> (Err e, snd (derive_keys P ser kx))
           | Panic s \<Rightarrow> (Panic s, snd (derive_keys P ser kx))
           | Ok u \<Rightarrow>
               if 32 > Padding (meetingPlace kx) then (Err ErrInitialTooLarge, snd (derive_keys P ser kx))
               else
                 ((case fst (snd (io_ReadFull (rand kx) (nat (Padding (meetingPlace kx)) - 32))) of
                     None \<Rightarrow> Ok () | Some e \<Rightarrow> Err e),
                  (snd (derive_keys P ser kx))
                    \<lparr> message1 :=
                        array_of 32 0 (rijndael_Encrypt P (key (snd (derive_keys P ser kx))) (dhPublic kx))
                        @ copy_into (zeros (nat (Padding (meetingPlace kx)) - 32))
                            (fst (io_ReadFull (rand kx) (nat (Padding (meetingPlace kx)) - 32))),
                      rand := snd (snd (io_ReadFull (rand kx) (nat (Padding (meetingPlace kx)) - 32))) \<rparr>)))"
proof (cases "marshal_SharedSecret P (toProto P (sharedSecret kx))")
  case (Inl e)
  then show ?thesis by (simp add: derivePassword_def)
next
  case (Inr ser)
  obtain r k1 where dk: "derive_keys P ser kx = (r, k1)" by (cases "derive_keys P ser kx") auto
  have k1: "meetingPlace k1 = meetingPlace kx" "rand k1 = rand kx" "dhPublic k1 = dhPublic kx"
    using derive_keys_frame(6,4,10) [of P ser kx] by (simp_all add: dk)
  show ?thesis
  proof (cases r)
    case (Err e)
    then show ?thesis using Inr dk by (simp add: derivePassword_def)
  next
    case (Panic s)
    then show ?thesis using Inr dk by (simp add: derivePassword_def)
  next
    case (Ok u)
    show ?thesis
    proof (cases "32 > Padding (meetingPlace kx)")
      case True
      then show ?thesis using Inr dk Ok k1 by (simp add: derivePassword_def)
    next
      case False
      obtain got e rnd' where rf: "io_ReadFull (rand kx) (nat (Padding (meetingPlace kx)) - 32) = (got, e, rnd')"
        by (cases "io_ReadFull (rand kx) (nat (Padding (meetingPlace kx)) - 32)") auto
      have l: "32 \<le> nat (Padding (meetingPlace kx))" using False by simp
      note lay = message1_layout [OF length_array_of l]
      show ?thesis
        using Inr dk Ok k1 False rf
        by (cases e) (simp_all add: derivePassword_def Let_def lay)
    qed
  qed
qed

lemma derivePassword_shape:
  "snd (derivePassword P kx) =
     kx\<lparr> key := key (snd (derivePassword P kx)),
          meeting1 := meeting1 (snd (derivePassword P kx)),
          meeting2 := meeting2 (snd (derivePassword P kx)),
          message1 := message1 (snd (derivePassword P kx)),
          rand := rand (snd (derivePassword P kx)) \<rparr>"
proof -
  have *: "\<And>ser. snd (derive_keys P ser kx) =
     kx\<lparr> key := key (snd (derive_keys P ser kx)),
          meeting1 := meeting1 (snd (derive_keys P ser kx)),
          meeting2 := meeting2 (snd (derive_keys P ser kx)),
          message1 := message1 (snd (derive_keys P ser kx)),
          rand := rand (snd (derive_keys P ser kx)) \<rparr>"
    by (subst derive_keys_shape) (simp add: derive_keys_frame)
  show ?thesis
    unfolding derivePassword_alt
    apply (simp split: sum.splits outcome.splits)
    apply (intro conjI impI allI)
    apply (subst *, simp add: derive_keys_frame)+
    done
qed

end
